theory Spec2Isabelle
  imports Complex_Main "HOL-Library.Word" "HOL-Library.Sublist"
begin

section \<open>Voice activity segmentation (backend/src/index.ts)\<close>

text \<open>
  A Node \<open>Buffer\<close> is a sequence of bytes; \<open>Buffer.concat\<close> of an array of buffers is the
  concatenation of their bytes.
\<close>

type_synonym Buffer = "8 word list"

text \<open>
  \<open>type AudioState = { isRecording: boolean; buffer: Buffer[]; silenceCount: number }\<close>.
  The counter starts at 0 and is only incremented or set back to 0, so it is a natural number.
\<close>

record AudioState =
  isRecording :: bool
  buffer :: "Buffer list"
  silenceCount :: nat

definition audioState :: AudioState where
  "audioState = \<lparr>isRecording = False, buffer = [], silenceCount = 0\<rparr>"

definition MIN_SILENCE_FRAMES :: nat where
  "MIN_SILENCE_FRAMES = 10"

definition MIN_VOICE_FRAMES :: nat where
  "MIN_VOICE_FRAMES = 5"

definition resetAudioState :: "AudioState \<Rightarrow> AudioState" where
  "resetAudioState s = s\<lparr>isRecording := False, buffer := [], silenceCount := 0\<rparr>"

text \<open>
  The body of the chunk loop after \<open>const isVoiceActive = detectVoiceActivity(buffer)\<close>
  (index.ts, lines 332 to 359), up to the point where the handler is suspended or the body
  ends. \<open>detectVoiceActivity\<close> computes a floating point root mean square over the
  \<open>ArrayBuffer\<close> underlying the chunk, so its verdict is an input here: a frame is a pair of
  that verdict and the decoded bytes.

  The handler is an \<open>async\<close> function. When the silence threshold is reached and the buffer
  is long enough it calls \<open>await processSpeechToText(combinedBuffer)\<close> and is suspended with
  the state not yet reset; \<open>resetAudioState()\<close> is the first thing it does when it is
  resumed. The second component of the result is the argument of that call: \<open>Some\<close> means
  the handler is suspended, with the first component the state it leaves behind, and
  \<open>None\<close> means the body ran to its end.
\<close>

definition ingestUntilAwait ::
  "AudioState \<Rightarrow> bool \<Rightarrow> Buffer \<Rightarrow> AudioState \<times> Buffer option" where
  "ingestUntilAwait s isVoiceActive buf =
     (if isVoiceActive then
        (s\<lparr>silenceCount := 0, buffer := buffer s @ [buf], isRecording := True\<rparr>, None)
      else if isRecording s then
        (let s1 = s\<lparr>silenceCount := silenceCount s + 1, buffer := buffer s @ [buf]\<rparr> in
         if silenceCount s1 \<ge> MIN_SILENCE_FRAMES then
           (if length (buffer s1) > MIN_VOICE_FRAMES
            then (s1, Some (concat (buffer s1)))
            else (resetAudioState s1, None))
         else (s1, None))
      else (s, None))"

text \<open>
  One frame handled with nothing else happening while speech-to-text is at work: the
  recognition resolves and the handler resets the state before any other frame is looked
  at. \<open>processSpeechToText\<close> catches its own errors, so the handler is always resumed.
\<close>

definition ingest :: "AudioState \<Rightarrow> bool \<Rightarrow> Buffer \<Rightarrow> AudioState \<times> Buffer option" where
  "ingest s isVoiceActive buf =
     (case ingestUntilAwait s isVoiceActive buf of
        (s1, Some u) \<Rightarrow> (resetAudioState s1, Some u)
      | (s1, None) \<Rightarrow> (s1, None))"

text \<open>
  Feeding a sequence of frames in arrival order, each handled as above: the final state and
  the buffers handed to speech-to-text, in the order of the calls.
\<close>

fun ingest_all :: "AudioState \<Rightarrow> (bool \<times> Buffer) list \<Rightarrow> AudioState \<times> Buffer list" where
  "ingest_all s [] = (s, [])"
| "ingest_all s ((v, b) # fs) =
     (case ingest s v b of (s1, out) \<Rightarrow>
        (case ingest_all s1 fs of (s2, outs) \<Rightarrow>
           (s2, (case out of None \<Rightarrow> outs | Some u \<Rightarrow> u # outs))))"

definition voiced :: "Buffer list \<Rightarrow> (bool \<times> Buffer) list" where
  "voiced bs = map (Pair True) bs"

definition silent :: "Buffer list \<Rightarrow> (bool \<times> Buffer) list" where
  "silent bs = map (Pair False) bs"

text \<open>
  The invariant of the segmenter state: nothing is buffered or counted while idle, the
  silence run is part of the buffered frames, and the silence threshold is never left
  standing.
\<close>

definition vad_inv :: "AudioState \<Rightarrow> bool" where
  "vad_inv s \<longleftrightarrow>
     (\<not> isRecording s \<longrightarrow> buffer s = [] \<and> silenceCount s = 0) \<and>
     silenceCount s \<le> length (buffer s) \<and>
     silenceCount s < MIN_SILENCE_FRAMES"

text \<open>Concrete frames used to run the scenarios.\<close>

definition voice1 :: "Buffer list" where
  "voice1 = [[1, 4]]"

definition voice3 :: "Buffer list" where
  "voice3 = [[1, 4], [2, 5], [3, 6]]"

definition voice6 :: "Buffer list" where
  "voice6 = [[1, 4], [2, 5], [3, 6], [7, 1], [8, 2], [9, 3]]"

definition quiet10 :: "Buffer list" where
  "quiet10 = [[0, 0], [1, 0], [0, 0], [1, 0], [0, 0], [1, 0], [0, 0], [1, 0], [0, 0], [1, 0]]"

subsection \<open>Messages that arrive while speech-to-text is at work\<close>

text \<open>
  The socket calls the listener for every message and does not wait for the promise the
  listener returns. So while one handler is suspended in \<open>await processSpeechToText\<close>,
  the handlers of later messages run on the same module-level \<open>audioState\<close>, and may be
  suspended in turn. What is left of the loop of a suspended handler is the list of items it
  has still to handle.
\<close>

record 'i Listener =
  vad :: AudioState
  awaiting :: "'i list list"

definition listener0 :: "'i Listener" where
  "listener0 = \<lparr>vad = audioState, awaiting = []\<rparr>"

text \<open>
  The loop of one handler over its items, from a given state up to its first suspension:
  the state then, and the buffer handed to speech-to-text together with the items left.
\<close>

fun untilAwait ::
  "(AudioState \<Rightarrow> 'i \<Rightarrow> AudioState \<times> Buffer option) \<Rightarrow> AudioState \<Rightarrow> 'i list \<Rightarrow>
     AudioState \<times> (Buffer \<times> 'i list) option" where
  "untilAwait body s [] = (s, None)"
| "untilAwait body s (x # xs) =
     (case body s x of
        (s1, None) \<Rightarrow> untilAwait body s1 xs
      | (s1, Some u) \<Rightarrow> (s1, Some (u, xs)))"

text \<open>
  A handler runs, or runs on, until it is suspended or done; \<open>others\<close> are the handlers that
  stay suspended meanwhile.
\<close>

definition proceed ::
  "(AudioState \<Rightarrow> 'i \<Rightarrow> AudioState \<times> Buffer option) \<Rightarrow> 'i list list \<Rightarrow> AudioState \<Rightarrow> 'i list \<Rightarrow>
     'i Listener \<times> Buffer list" where
  "proceed body others s xs =
     (case untilAwait body s xs of
        (s1, None) \<Rightarrow> (\<lparr>vad = s1, awaiting = others\<rparr>, [])
      | (s1, Some (u, rest)) \<Rightarrow> (\<lparr>vad = s1, awaiting = others @ [rest]\<rparr>, [u]))"

text \<open>
  Two things can happen: a message arrives and its handler starts, or the recognition that
  suspended handler number \<open>i\<close> resolves, upon which that handler resets the state and goes
  on with its loop. The second component is what the step hands to speech-to-text.
\<close>

datatype 'i listener_event = Message "'i list" | Recognized nat

definition listenerStep ::
  "(AudioState \<Rightarrow> 'i \<Rightarrow> AudioState \<times> Buffer option) \<Rightarrow> 'i Listener \<Rightarrow> 'i listener_event \<Rightarrow>
     'i Listener \<times> Buffer list" where
  "listenerStep body g ev =
     (case ev of
        Message xs \<Rightarrow> proceed body (awaiting g) (vad g) xs
      | Recognized i \<Rightarrow>
          if i < length (awaiting g)
          then proceed body (take i (awaiting g) @ drop (Suc i) (awaiting g))
                 (resetAudioState (vad g)) (awaiting g ! i)
          else (g, []))"


text \<open>The body for a frame whose verdict is given.\<close>

definition frameBody :: "AudioState \<Rightarrow> bool \<times> Buffer \<Rightarrow> AudioState \<times> Buffer option" where
  "frameBody s f = ingestUntilAwait s (fst f) (snd f)"

section \<open>The upstream client (src/lib/multimodal-live-client.ts)\<close>

text \<open>
  Payloads that the code passes on without looking inside them (tool calls, tool responses,
  generation settings) are kept as parsed JSON values.
\<close>

datatype json =
    JNull
  | JBool bool
  | JNum rat
  | JStr string
  | JArr "json list"
  | JObj "(string \<times> json) list"

text \<open>\<open>GenerativeContentBlob\<close>, \<open>Part\<close> and \<open>Content\<close> of the generative AI library.\<close>

record GenerativeContentBlob =
  mimeType :: string
  data :: string

record Part =
  partText :: "string option"
  inlineData :: "GenerativeContentBlob option"

record Content =
  role :: string
  parts :: "Part list"

record LiveConfig =
  model :: string
  systemInstruction :: "Part list option"
  generationConfig :: "json option"
  tools :: "json option"

text \<open>The envelopes the client puts on the wire; a frame is the JSON text of one of them.\<close>

datatype envelope =
    SetupMessage LiveConfig
  | RealtimeInputMessage "GenerativeContentBlob list"
  | ToolResponseMessage json
  | ClientContentMessage "Content list" bool

text \<open>
  The events of \<open>MultimodalLiveClientEventTypes\<close>. A log event carries its type tag; its date
  and message are left out.
\<close>

datatype event =
    Ev_open
  | Ev_log string
  | Ev_close
  | Ev_audio Buffer
  | Ev_content "Part list"
  | Ev_interrupted
  | Ev_setupcomplete
  | Ev_turncomplete
  | Ev_toolcall json
  | Ev_toolcallcancellation json

type_synonym WebSocket = nat

text \<open>What a method of the client does to the outside: frames sent, sockets closed, events.\<close>

datatype effect =
    Transmit WebSocket envelope
  | CloseSocket WebSocket
  | Emit event

datatype error = NotConnected | InvalidBase64

record MultimodalLiveClient =
  ws :: "WebSocket option"
  config :: "LiveConfig option"

text \<open>The constructor: \<open>ws = null\<close>, \<open>config = null\<close>.\<close>

definition newClient :: MultimodalLiveClient where
  "newClient = \<lparr>ws = None, config = None\<rparr>"

text \<open>
  \<open>connect(config)\<close> stores the configuration and creates a socket \<open>w\<close>; \<open>this.ws\<close> is only
  assigned by the socket's open event.
\<close>

definition connect :: "MultimodalLiveClient \<Rightarrow> LiveConfig \<Rightarrow> MultimodalLiveClient" where
  "connect c cfg = c\<lparr>config := Some cfg\<rparr>"

definition sendDirect :: "MultimodalLiveClient \<Rightarrow> envelope \<Rightarrow> error + effect list" where
  "sendDirect c request =
     (case ws c of
        None \<Rightarrow> Inl NotConnected
      | Some w \<Rightarrow> Inr [Transmit w request])"

text \<open>
  The open event of socket \<open>w\<close>: without a configuration the promise is rejected and nothing
  else happens; otherwise \<open>this.ws = ws\<close> and the setup envelope is the first frame sent.
\<close>

definition onOpen :: "MultimodalLiveClient \<Rightarrow> WebSocket \<Rightarrow> MultimodalLiveClient \<times> effect list" where
  "onOpen c w =
     (case config c of
        None \<Rightarrow> (c, [])
      | Some cfg \<Rightarrow>
          (let c1 = c\<lparr>ws := Some w\<rparr> in
           (c1, [Emit (Ev_log ''client.open''), Emit Ev_open] @
                (case sendDirect c1 (SetupMessage cfg) of Inl e \<Rightarrow> [] | Inr es \<Rightarrow> es) @
                [Emit (Ev_log ''client.send'')])))"

text \<open>
  \<open>disconnect(ws?)\<close>: closes and forgets the current socket unless a socket is given that is
  not the current one. The result is the boolean the method returns.
\<close>

definition disconnect ::
  "MultimodalLiveClient \<Rightarrow> WebSocket option \<Rightarrow> MultimodalLiveClient \<times> effect list \<times> bool" where
  "disconnect c w =
     (case ws c of
        Some cur \<Rightarrow>
          (if w = None \<or> w = Some cur
           then (c\<lparr>ws := None\<rparr>, [CloseSocket cur, Emit (Ev_log ''client.close,'')], True)
           else (c, [], False))
      | None \<Rightarrow> (c, [], False))"

text \<open>The close event of socket \<open>w\<close>, registered once \<open>w\<close> has opened.\<close>

definition onClose :: "MultimodalLiveClient \<Rightarrow> WebSocket \<Rightarrow> MultimodalLiveClient \<times> effect list" where
  "onClose c w =
     (case disconnect c (Some w) of
        (c1, es, _) \<Rightarrow> (c1, es @ [Emit (Ev_log ''server.close''), Emit Ev_close]))"

text \<open>
  The three senders. Each builds its envelope, hands it to \<open>_sendDirect\<close> and then logs; an
  exception of \<open>_sendDirect\<close> leaves the method before the log. The loop of
  \<open>sendRealtimeInput\<close> over the chunks only computes a flag that is not used.
\<close>

definition sendRealtimeInput ::
  "MultimodalLiveClient \<Rightarrow> GenerativeContentBlob list \<Rightarrow> error + effect list" where
  "sendRealtimeInput c chunks =
     (case sendDirect c (RealtimeInputMessage chunks) of
        Inl e \<Rightarrow> Inl e
      | Inr es \<Rightarrow> Inr (es @ [Emit (Ev_log ''client.realtimeInput'')]))"

definition sendToolResponse :: "MultimodalLiveClient \<Rightarrow> json \<Rightarrow> error + effect list" where
  "sendToolResponse c toolResponse =
     (case sendDirect c (ToolResponseMessage toolResponse) of
        Inl e \<Rightarrow> Inl e
      | Inr es \<Rightarrow> Inr (es @ [Emit (Ev_log ''client.toolResponse'')]))"

text \<open>
  \<open>send(parts: Part | Part[], turnComplete = true)\<close>: a single part is wrapped in an array,
  and an omitted second argument is \<open>true\<close>.
\<close>

definition send ::
  "MultimodalLiveClient \<Rightarrow> Part + Part list \<Rightarrow> bool option \<Rightarrow> error + effect list" where
  "send c ps turnComplete =
     (let partsArray = (case ps of Inl p \<Rightarrow> [p] | Inr l \<Rightarrow> l);
          content = \<lparr>role = ''user'', parts = partsArray\<rparr>;
          clientContentRequest =
            ClientContentMessage [content] (case turnComplete of None \<Rightarrow> True | Some t \<Rightarrow> t)
      in case sendDirect c clientContentRequest of
           Inl e \<Rightarrow> Inl e
         | Inr es \<Rightarrow> Inr (es @ [Emit (Ev_log ''client.send'')]))"

subsection \<open>Incoming messages\<close>

text \<open>
  A decoded server message, as the type \<open>LiveIncomingMessage\<close> to which the handlers cast it:
  each key may be absent. \<open>modelTurn\<close> holds the \<open>parts\<close> array of the \<open>modelTurn\<close> object.
\<close>

record ServerContent =
  interrupted :: "bool option"
  turnComplete :: "bool option"
  modelTurn :: "Part list option"

record LiveIncomingMessage =
  toolCall :: "json option"
  toolCallCancellation :: "json option"
  setupComplete :: "unit option"
  serverContent :: "ServerContent option"

text \<open>
  The type guards, as index.ts defines them (lines 153 to 165): a key holding an object, a
  \<open>turnComplete\<close> that is a boolean (of either value), an \<open>interrupted\<close> that is truthy.
  \<open>MultimodalLiveClient.receive\<close> imports guards of the same names from the module
  multimodal-live-types, which is not among the sources; they are taken to be these.
\<close>

definition isServerContentMessage :: "LiveIncomingMessage \<Rightarrow> bool" where
  "isServerContentMessage a \<longleftrightarrow> serverContent a \<noteq> None"

definition isModelTurn :: "ServerContent \<Rightarrow> bool" where
  "isModelTurn a \<longleftrightarrow> modelTurn a \<noteq> None"

definition isTurnComplete :: "ServerContent \<Rightarrow> bool" where
  "isTurnComplete a \<longleftrightarrow> turnComplete a \<noteq> None"

definition isInterrupted :: "ServerContent \<Rightarrow> bool" where
  "isInterrupted a \<longleftrightarrow> interrupted a = Some True"

text \<open>
  Modelled from the spec: the guards \<open>isToolCallMessage\<close>, \<open>isToolCallCancellationMessage\<close>
  and \<open>isSetupCompleteMessage\<close> live in the module multimodal-live-types, which is not
  among the sources; the specification has the handler dispatch on the presence of the
  \<open>toolCall\<close>, \<open>toolCallCancellation\<close> and \<open>setupComplete\<close> keys.
\<close>

definition isToolCallMessage :: "LiveIncomingMessage \<Rightarrow> bool" where
  "isToolCallMessage a \<longleftrightarrow> toolCall a \<noteq> None"

definition isToolCallCancellationMessage :: "LiveIncomingMessage \<Rightarrow> bool" where
  "isToolCallCancellationMessage a \<longleftrightarrow> toolCallCancellation a \<noteq> None"

definition isSetupCompleteMessage :: "LiveIncomingMessage \<Rightarrow> bool" where
  "isSetupCompleteMessage a \<longleftrightarrow> setupComplete a \<noteq> None"

text \<open>\<open>p.inlineData?.mimeType.startsWith('audio/pcm')\<close>\<close>

definition isAudioPart :: "Part \<Rightarrow> bool" where
  "isAudioPart p =
     (case inlineData p of None \<Rightarrow> False | Some b \<Rightarrow> prefix ''audio/pcm'' (mimeType b))"

text \<open>lodash's \<open>difference\<close>: the elements of the first array that are not in the second.\<close>

definition difference :: "'a list \<Rightarrow> 'a list \<Rightarrow> 'a list" where
  "difference xs ys = filter (\<lambda>x. x \<notin> set ys) xs"

text \<open>
  The loop over the base64 payloads of the audio parts. An absent or empty payload is passed
  over. \<open>base64ToArrayBuffer\<close> comes from a module that is not among the sources and is a
  parameter; it answers \<open>None\<close> where it throws, which ends the handler at that point.
\<close>

fun emitAudio :: "(string \<Rightarrow> Buffer option) \<Rightarrow> string option list \<Rightarrow> event list \<times> error option" where
  "emitAudio base64ToArrayBuffer [] = ([], None)"
| "emitAudio base64ToArrayBuffer (b64 # rest) =
     (case b64 of
        None \<Rightarrow> emitAudio base64ToArrayBuffer rest
      | Some s \<Rightarrow>
          if s = [] then emitAudio base64ToArrayBuffer rest
          else (case base64ToArrayBuffer s of
                  None \<Rightarrow> ([], Some InvalidBase64)
                | Some d \<Rightarrow>
                    (case emitAudio base64ToArrayBuffer rest of
                       (es, r) \<Rightarrow> (Ev_audio d # Ev_log ''server.audio'' # es, r))))"

text \<open>
  \<open>MultimodalLiveClient.receive\<close>: the events emitted, in order, and the exception that ended
  the handler, if any.
\<close>

definition receive ::
  "(string \<Rightarrow> Buffer option) \<Rightarrow> LiveIncomingMessage \<Rightarrow> event list \<times> error option" where
  "receive base64ToArrayBuffer response =
     (if isToolCallMessage response then
        (case toolCall response of
           Some tc \<Rightarrow> ([Ev_log ''server.toolCall'', Ev_toolcall tc], None)
         | None \<Rightarrow> ([], None))
      else if isToolCallCancellationMessage response then
        (case toolCallCancellation response of
           Some tcc \<Rightarrow> ([Ev_log ''receive.toolCallCancellation'', Ev_toolcallcancellation tcc], None)
         | None \<Rightarrow> ([], None))
      else
        (let setup = (if isSetupCompleteMessage response
                      then [Ev_log ''server.send'', Ev_setupcomplete] else [])
         in case serverContent response of
              None \<Rightarrow> (setup, None)
            | Some sc \<Rightarrow>
                if isInterrupted sc then
                  (setup @ [Ev_log ''receive.serverContent'', Ev_interrupted], None)
                else
                  (let turn = (if isTurnComplete sc
                               then [Ev_log ''server.send'', Ev_turncomplete] else [])
                   in case modelTurn sc of
                        None \<Rightarrow> (setup @ turn, None)
                      | Some ps \<Rightarrow>
                          (let audioParts = filter isAudioPart ps;
                               base64s = map (\<lambda>p. map_option data (inlineData p)) audioParts;
                               otherParts = difference ps audioParts
                           in case emitAudio base64ToArrayBuffer base64s of
                                (aud, Some e) \<Rightarrow> (setup @ turn @ aud, Some e)
                              | (aud, None) \<Rightarrow>
                                  if otherParts = [] then (setup @ turn @ aud, None)
                                  else (setup @ turn @ aud @
                                          [Ev_content otherParts, Ev_log ''server.content''],
                                        None)))))"

text \<open>The base64 payload of a part, empty when the part has no inline data.\<close>

definition payload :: "Part \<Rightarrow> string" where
  "payload p = (case inlineData p of None \<Rightarrow> [] | Some b \<Rightarrow> data b)"

text \<open>A message for running the handlers: a completed turn with an audio part and a text part.\<close>

definition audioPart1 :: Part where
  "audioPart1 = \<lparr>partText = None,
     inlineData = Some \<lparr>mimeType = ''audio/pcm;rate=24000'', data = ''AQI=''\<rparr>\<rparr>"

definition textPart1 :: Part where
  "textPart1 = \<lparr>partText = Some ''hello'', inlineData = None\<rparr>"

definition turnMessage :: LiveIncomingMessage where
  "turnMessage = \<lparr>toolCall = None, toolCallCancellation = None, setupComplete = None,
     serverContent = Some \<lparr>interrupted = None, turnComplete = Some True,
                            modelTurn = Some [audioPart1, textPart1]\<rparr>\<rparr>"

definition interruptedMessage :: LiveIncomingMessage where
  "interruptedMessage = \<lparr>toolCall = None, toolCallCancellation = None, setupComplete = None,
     serverContent = Some \<lparr>interrupted = Some True, turnComplete = Some True,
                            modelTurn = Some [audioPart1, textPart1]\<rparr>\<rparr>"

section \<open>The relay's handler of upstream messages (backend/src/index.ts)\<close>

text \<open>
  An exception that leaves a handler of the relay: \<open>serverWs\<close> is still undefined when
  something is to be sent to the client, or the upstream socket is still connecting when
  something is to be sent on it.
\<close>

datatype relay_error = ServerWsUndefined | UpstreamConnecting

text \<open>
  What the relay does to the outside. The one upstream socket is the module-level constant
  \<open>clientWs\<close>; it receives the setup message and the batches of media chunks as parsed. A
  client socket receives \<open>modelTurn\<close> frames. \<open>Console\<close> is a line that the upstream message
  handler writes with \<open>console.log\<close>, named by the second argument of the call.
  \<open>Uncaught\<close> is an exception that ended a handler.
\<close>

datatype Upstream = clientWs

datatype relay_effect =
    ToUpstream Upstream "json list"
  | ToUpstreamSetup Upstream
  | ToClient WebSocket "Part list"
  | SpeechToText Buffer
  | Console string
  | Uncaught relay_error

text \<open>
  \<open>clientWs.on("message")\<close>, lines 448 to 476, given the current value of the module-level
  variable \<open>serverWs\<close> (undefined until a client has been upgraded): the effects in order
  and the exception that ended the handler, if any.
\<close>

definition onUpstreamMessage ::
  "WebSocket option \<Rightarrow> LiveIncomingMessage \<Rightarrow> relay_effect list \<times> relay_error option" where
  "onUpstreamMessage serverWs response =
     (if isServerContentMessage response then
        (case serverContent response of
           None \<Rightarrow> ([], None)
         | Some sc \<Rightarrow>
             if isInterrupted sc then ([Console ''interrupted''], None)
             else
               (let turn = (if isTurnComplete sc then [Console ''turnComplete''] else [])
                in if isModelTurn sc then
                     (case modelTurn sc of
                        None \<Rightarrow> (turn, None)
                      | Some ps \<Rightarrow>
                          (let audioParts = filter isAudioPart ps
                           in case serverWs of
                                None \<Rightarrow> (turn @ [Console ''modelTurn''], Some ServerWsUndefined)
                              | Some w \<Rightarrow>
                                  (turn @ [Console ''modelTurn'', ToClient w audioParts], None)))
                   else (turn, None)))
      else ([], None))"

section \<open>The relay's handler of client messages (backend/src/index.ts)\<close>

text \<open>
  A media chunk is whatever \<open>JSON.parse\<close> produced at that place of the message. The test
  \<open>!chunk || typeof chunk !== "object" || !("data" in chunk) || !("mimeType" in chunk)\<close>
  uses JavaScript's truthiness, \<open>typeof\<close> (which answers "object" for null, arrays and
  objects) and \<open>in\<close> (an array has neither key).
\<close>

fun truthy :: "json \<Rightarrow> bool" where
  "truthy JNull = False"
| "truthy (JBool b) = b"
| "truthy (JNum n) = (n \<noteq> 0)"
| "truthy (JStr s) = (s \<noteq> [])"
| "truthy (JArr xs) = True"
| "truthy (JObj kvs) = True"

fun typeofObject :: "json \<Rightarrow> bool" where
  "typeofObject JNull = True"
| "typeofObject (JArr xs) = True"
| "typeofObject (JObj kvs) = True"
| "typeofObject (JBool b) = False"
| "typeofObject (JNum n) = False"
| "typeofObject (JStr s) = False"

fun hasKey :: "string \<Rightarrow> json \<Rightarrow> bool" where
  "hasKey k (JObj kvs) = (k \<in> fst ` set kvs)"
| "hasKey k v = False"

text \<open>Reading a property: \<open>None\<close> is \<open>undefined\<close>.\<close>

fun field :: "json \<Rightarrow> string \<Rightarrow> json option" where
  "field (JObj kvs) k = map_of kvs k"
| "field v k = None"

definition validChunk :: "json \<Rightarrow> bool" where
  "validChunk chunk \<longleftrightarrow>
     \<not> (\<not> truthy chunk \<or> \<not> typeofObject chunk \<or> \<not> hasKey ''data'' chunk \<or>
        \<not> hasKey ''mimeType'' chunk)"

text \<open>
  \<open>chunk.mimeType.includes("audio/pcm")\<close>: a substring test on a string, a membership test on
  an array, and a \<open>TypeError\<close> (\<open>None\<close>) on anything else, which has no callable \<open>includes\<close>.
\<close>

fun includesAudioPcm :: "json option \<Rightarrow> bool option" where
  "includesAudioPcm (Some (JStr s)) = Some (sublist ''audio/pcm'' s)"
| "includesAudioPcm (Some (JArr xs)) = Some (JStr ''audio/pcm'' \<in> set xs)"
| "includesAudioPcm v = None"

text \<open>
  The first part of the \<open>try\<close> block for one chunk, lines 313 to 330, which does not touch
  the state: it ends early with \<open>continue\<close> on an invalid or unsupported chunk, or with an
  exception, which the \<open>catch\<close> block answers with \<open>continue\<close> as well; otherwise it yields
  the decoded buffer and its verdict. \<open>Buffer.from(chunk.data, "base64")\<close> belongs to the
  platform and is a parameter (\<open>None\<close> where it throws, as it does on \<open>undefined\<close>); so is
  \<open>detectVoiceActivity\<close>, whose \<open>Int16Array\<close> view throws on an odd byte length.
\<close>

datatype skip = InvalidChunkFormat | UnsupportedAudioFormat | Exception

definition readChunk ::
  "(json \<Rightarrow> Buffer option) \<Rightarrow> (Buffer \<Rightarrow> bool option) \<Rightarrow> json \<Rightarrow> skip + bool \<times> Buffer" where
  "readChunk bufferFrom detectVoiceActivity chunk =
     (if \<not> validChunk chunk then Inl InvalidChunkFormat
      else case includesAudioPcm (field chunk ''mimeType'') of
             None \<Rightarrow> Inl Exception
           | Some False \<Rightarrow> Inl UnsupportedAudioFormat
           | Some True \<Rightarrow>
               (case field chunk ''data'' of
                  None \<Rightarrow> Inl Exception
                | Some d \<Rightarrow>
                    (case bufferFrom d of
                       None \<Rightarrow> Inl Exception
                     | Some buf \<Rightarrow>
                         (case detectVoiceActivity buf of
                            None \<Rightarrow> Inl Exception
                          | Some isVoiceActive \<Rightarrow> Inr (isVoiceActive, buf)))))"

text \<open>
  The whole \<open>try\<close> block for one chunk, up to the point where the handler is suspended or
  the block ends. A chunk that is skipped leaves the state as it is.
\<close>

definition chunkBody ::
  "(json \<Rightarrow> Buffer option) \<Rightarrow> (Buffer \<Rightarrow> bool option) \<Rightarrow> AudioState \<Rightarrow> json \<Rightarrow>
     AudioState \<times> Buffer option" where
  "chunkBody bufferFrom detectVoiceActivity s chunk =
     (case readChunk bufferFrom detectVoiceActivity chunk of
        Inl why \<Rightarrow> (s, None)
      | Inr (isVoiceActive, buf) \<Rightarrow> ingestUntilAwait s isVoiceActive buf)"

text \<open>
  The \<open>try\<close> block for one chunk when nothing else happens while speech-to-text is at work:
  the reason why the chunk is skipped, or the state after the block and the buffer handed to
  speech-to-text.
\<close>

definition tryChunk ::
  "(json \<Rightarrow> Buffer option) \<Rightarrow> (Buffer \<Rightarrow> bool option) \<Rightarrow> AudioState \<Rightarrow> json \<Rightarrow>
     skip + AudioState \<times> Buffer option" where
  "tryChunk bufferFrom detectVoiceActivity s chunk =
     (case readChunk bufferFrom detectVoiceActivity chunk of
        Inl why \<Rightarrow> Inl why
      | Inr (isVoiceActive, buf) \<Rightarrow> Inr (ingest s isVoiceActive buf))"

text \<open>
  \<open>for (const chunk of chunks)\<close> in one handler, when nothing else happens while
  speech-to-text is at work: the handler awaits each call before it goes on to the next
  chunk, so within one message the chunks are handled strictly in order. The result is the
  final state and the buffers handed to speech-to-text.
\<close>

fun chunkLoop ::
  "(json \<Rightarrow> Buffer option) \<Rightarrow> (Buffer \<Rightarrow> bool option) \<Rightarrow> AudioState \<Rightarrow> json list \<Rightarrow>
     AudioState \<times> Buffer list" where
  "chunkLoop bufferFrom detectVoiceActivity s [] = (s, [])"
| "chunkLoop bufferFrom detectVoiceActivity s (chunk # chunks) =
     (case tryChunk bufferFrom detectVoiceActivity s chunk of
        Inl why \<Rightarrow> chunkLoop bufferFrom detectVoiceActivity s chunks
      | Inr (s1, out) \<Rightarrow>
          (case chunkLoop bufferFrom detectVoiceActivity s1 chunks of
             (s2, outs) \<Rightarrow> (s2, (case out of None \<Rightarrow> outs | Some u \<Rightarrow> u # outs))))"

text \<open>
  \<open>clientWs.send(data)\<close> without a callback, by the state of the upstream socket. This is
  the behaviour of the web socket library, which is not part of the sources: the call
  throws while the socket is still connecting, hands the data to the socket while it is
  open, and drops the data without a word once the socket is closing or closed.
\<close>

datatype readyState = CONNECTING | OPEN | CLOSING | CLOSED

definition clientWsSend :: "readyState \<Rightarrow> json list \<Rightarrow> relay_error + relay_effect list" where
  "clientWsSend rs chunks =
     (case rs of
        CONNECTING \<Rightarrow> Inl UpstreamConnecting
      | OPEN \<Rightarrow> Inr [ToUpstream clientWs chunks]
      | CLOSING \<Rightarrow> Inr []
      | CLOSED \<Rightarrow> Inr [])"

text \<open>
  \<open>serverWs.on("message")\<close>, lines 295 to 366, for a message whose
  \<open>realtimeInput.mediaChunks\<close> is the array \<open>chunks\<close>, up to the point where the handler is
  suspended or done. The batch is sent to \<open>clientWs\<close> first; that call stands outside the
  \<open>try\<close> block, so its exception ends the handler before the loop. Then the chunks go
  through the loop. Console output is left out.
\<close>

definition onClientMessage ::
  "(json \<Rightarrow> Buffer option) \<Rightarrow> (Buffer \<Rightarrow> bool option) \<Rightarrow> readyState \<Rightarrow> json Listener \<Rightarrow>
     json list \<Rightarrow> relay_error + json Listener \<times> relay_effect list" where
  "onClientMessage bufferFrom detectVoiceActivity rs g chunks =
     (case clientWsSend rs chunks of
        Inl e \<Rightarrow> Inl e
      | Inr sent \<Rightarrow>
          (case listenerStep (chunkBody bufferFrom detectVoiceActivity) g (Message chunks) of
             (g1, outs) \<Rightarrow> Inr (g1, sent @ map SpeechToText outs)))"

text \<open>Chunks and platform functions used to run the handler.\<close>

definition pcmChunk :: json where
  "pcmChunk = JObj [(''mimeType'', JStr ''audio/pcm''), (''data'', JStr ''AQI='')]"

definition jpegChunk :: json where
  "jpegChunk = JObj [(''mimeType'', JStr ''image/jpeg''), (''data'', JStr ''AQI='')]"

definition numberChunk :: json where
  "numberChunk = JObj [(''mimeType'', JStr ''audio/pcm''), (''data'', JNum 5)]"

definition decodeStr :: "json \<Rightarrow> Buffer option" where
  "decodeStr v = (case v of JStr s \<Rightarrow> Some [1, 2] | _ \<Rightarrow> None)"

definition loud :: "Buffer \<Rightarrow> bool option" where
  "loud b = Some True"

section \<open>The relay as a whole (backend/src/index.ts)\<close>

text \<open>
  The module-level state of the relay: the variable \<open>serverWs\<close>, which each upgrade
  overwrites with the new client socket, the state of the upstream socket \<open>clientWs\<close>, which
  is created once when the module is loaded and is never replaced, the client sockets on
  which the upgrade has registered the message handler, and the one \<open>audioState\<close> together
  with the handlers suspended on it.
\<close>

record Relay =
  serverWs :: "WebSocket option"
  upstream :: readyState
  handlers :: "WebSocket list"
  listener :: "json Listener"

definition relayInit :: Relay where
  "relayInit = \<lparr>serverWs = None, upstream = CONNECTING, handlers = [], listener = listener0\<rparr>"

datatype relay_event =
    Upgrade WebSocket
  | ClientMessage WebSocket "json list"
  | SpeechRecognized nat
  | UpstreamOpened
  | UpstreamClosed
  | UpstreamMessage LiveIncomingMessage

text \<open>
  One event: a client is upgraded to a web socket, a client socket delivers a batch, a
  recognition resolves and its handler goes on, the upstream socket opens (and is sent the
  setup message) or closes, or the upstream socket delivers a message. A socket without
  handler delivers nothing. The transcription that speech-to-text sends back is not part
  of the model.
\<close>

definition relayStep ::
  "(json \<Rightarrow> Buffer option) \<Rightarrow> (Buffer \<Rightarrow> bool option) \<Rightarrow> Relay \<Rightarrow> relay_event \<Rightarrow>
     Relay \<times> relay_effect list" where
  "relayStep bufferFrom detectVoiceActivity st ev =
     (case ev of
        Upgrade w \<Rightarrow> (st\<lparr>serverWs := Some w, handlers := handlers st @ [w]\<rparr>, [])
      | ClientMessage w chunks \<Rightarrow>
          if w \<in> set (handlers st) then
            (case onClientMessage bufferFrom detectVoiceActivity (upstream st) (listener st) chunks of
               Inl e \<Rightarrow> (st, [Uncaught e])
             | Inr (g, es) \<Rightarrow> (st\<lparr>listener := g\<rparr>, es))
          else (st, [])
      | SpeechRecognized i \<Rightarrow>
          (case listenerStep (chunkBody bufferFrom detectVoiceActivity) (listener st) (Recognized i) of
             (g, outs) \<Rightarrow> (st\<lparr>listener := g\<rparr>, map SpeechToText outs))
      | UpstreamOpened \<Rightarrow>
          if upstream st = CONNECTING
          then (st\<lparr>upstream := OPEN\<rparr>, [ToUpstreamSetup clientWs])
          else (st, [])
      | UpstreamClosed \<Rightarrow> (st\<lparr>upstream := CLOSED\<rparr>, [])
      | UpstreamMessage response \<Rightarrow>
          (case onUpstreamMessage (serverWs st) response of
             (es, None) \<Rightarrow> (st, es)
           | (es, Some e) \<Rightarrow> (st, es @ [Uncaught e])))"

text \<open>A sequence of events: the final state and, for each event, its effects.\<close>

fun relayRun ::
  "(json \<Rightarrow> Buffer option) \<Rightarrow> (Buffer \<Rightarrow> bool option) \<Rightarrow> Relay \<Rightarrow> relay_event list \<Rightarrow>
     Relay \<times> (relay_event \<times> relay_effect list) list" where
  "relayRun bufferFrom detectVoiceActivity st [] = (st, [])"
| "relayRun bufferFrom detectVoiceActivity st (ev # evs) =
     (case relayStep bufferFrom detectVoiceActivity st ev of
        (st1, es) \<Rightarrow>
          (case relayRun bufferFrom detectVoiceActivity st1 evs of
             (st2, tr) \<Rightarrow> (st2, (ev, es) # tr)))"

text \<open>The upstream connections on which a list of effects forwards a batch.\<close>

fun upstreamsIn :: "relay_effect list \<Rightarrow> Upstream list" where
  "upstreamsIn [] = []"
| "upstreamsIn (ToUpstream u chunks # es) = u # upstreamsIn es"
| "upstreamsIn (e # es) = upstreamsIn es"

text \<open>Which client socket has used which upstream connection in a run.\<close>

fun forwards :: "(relay_event \<times> relay_effect list) list \<Rightarrow> (WebSocket \<times> Upstream) list" where
  "forwards [] = []"
| "forwards ((ClientMessage w chunks, es) # tr) = map (Pair w) (upstreamsIn es) @ forwards tr"
| "forwards ((ev, es) # tr) = forwards tr"

text \<open>The client sockets upgraded by a sequence of events, in order.\<close>

fun upgraded :: "relay_event list \<Rightarrow> WebSocket list" where
  "upgraded [] = []"
| "upgraded (Upgrade w # evs) = w # upgraded evs"
| "upgraded (ev # evs) = upgraded evs"

text \<open>
  The pairing as the specification words it, in its two halves: each client connection has
  one upstream connection, and no upstream connection serves two distinct clients.
\<close>

definition one_upstream_each :: "(WebSocket \<times> Upstream) list \<Rightarrow> bool" where
  "one_upstream_each ps \<longleftrightarrow> (\<forall>(d, u) \<in> set ps. \<forall>(d', u') \<in> set ps. d = d' \<longrightarrow> u = u')"

definition no_shared_upstream :: "(WebSocket \<times> Upstream) list \<Rightarrow> bool" where
  "no_shared_upstream ps \<longleftrightarrow> (\<forall>(d, u) \<in> set ps. \<forall>(d', u') \<in> set ps. u = u' \<longrightarrow> d = d')"

definition pairing_one_to_one :: "(WebSocket \<times> Upstream) list \<Rightarrow> bool" where
  "pairing_one_to_one ps \<longleftrightarrow> one_upstream_each ps \<and> no_shared_upstream ps"

section \<open>Sample conversion in the browser (live-media-manager.js)\<close>

text \<open>
  A float32 sample is a dyadic rational with a 24 bit significand. Its product with 32767
  is exact in double precision, truncation is exact, and an int16 divided by 32768 is again
  a float32. So on float32 inputs the two conversions compute, without any rounding, the
  functions on real numbers below.

  Storing a number into an \<open>Int16Array\<close> truncates it towards zero and reduces it modulo
  \<open>2^16\<close> into the signed range.
\<close>

definition toInt16 :: "real \<Rightarrow> int" where
  "toInt16 v =
     (let n = (if v < 0 then \<lceil>v\<rceil> else \<lfloor>v\<rfloor>); m = n mod 65536
      in if m < 32768 then m else m - 65536)"

text \<open>The loop of \<open>onaudioprocess\<close>: \<open>pcm16[i] = inputData[i] * 0x7fff\<close>.\<close>

definition onaudioprocess :: "real list \<Rightarrow> int list" where
  "onaudioprocess inputData = map (\<lambda>x. toInt16 (x * 32767)) inputData"

text \<open>
  \<open>convertPCM16LEToFloat32\<close>, on the elements of the \<open>Int16Array\<close> view of its argument:
  \<open>float32Array[i] = inputArray[i] / 32768\<close>.
\<close>

definition convertPCM16LEToFloat32 :: "int list \<Rightarrow> real list" where
  "convertPCM16LEToFloat32 inputArray = map (\<lambda>i. real_of_int i / 32768) inputArray"

section \<open>Properties of the voice activity segmentation\<close>

subsection \<open>One frame handled alone\<close>

lemma ingest_eq:
  "ingest s isVoiceActive buf =
     (if isVoiceActive then
        (s\<lparr>silenceCount := 0, buffer := buffer s @ [buf], isRecording := True\<rparr>, None)
      else if isRecording s then
        (let s1 = s\<lparr>silenceCount := silenceCount s + 1, buffer := buffer s @ [buf]\<rparr> in
         if silenceCount s1 \<ge> MIN_SILENCE_FRAMES then
           (resetAudioState s1,
            if length (buffer s1) > MIN_VOICE_FRAMES then Some (concat (buffer s1)) else None)
         else (s1, None))
      else (s, None))"
  by (simp add: ingest_def ingestUntilAwait_def Let_def)

subsection \<open>Runs of voiced and of silent frames\<close>

lemma ingest_all_append:
  "ingest_all s (fs @ gs) =
     (case ingest_all s fs of (s1, o1) \<Rightarrow>
        (case ingest_all s1 gs of (s2, o2) \<Rightarrow> (s2, o1 @ o2)))"
  by (induction fs arbitrary: s) (auto split: prod.splits option.splits)

lemma ingest_all_voiced:
  "bs \<noteq> [] \<Longrightarrow>
   ingest_all s (voiced bs) =
     (s\<lparr>silenceCount := 0, buffer := buffer s @ bs, isRecording := True\<rparr>, [])"
proof (induction bs arbitrary: s)
  case Nil
  then show ?case by simp
next
  case (Cons b bs)
  show ?case
  proof (cases "bs = []")
    case True
    then show ?thesis by (simp add: voiced_def ingest_eq)
  next
    case False
    from Cons.IH [OF False] show ?thesis
      by (simp add: voiced_def ingest_eq)
  qed
qed

lemma ingest_all_silent_idle:
  "\<not> isRecording s \<Longrightarrow> ingest_all s (silent bs) = (s, [])"
  by (induction bs) (simp_all add: silent_def ingest_eq)

lemma ingest_all_silent_short:
  "isRecording s \<Longrightarrow> silenceCount s + length bs < MIN_SILENCE_FRAMES \<Longrightarrow>
   ingest_all s (silent bs) =
     (s\<lparr>silenceCount := silenceCount s + length bs, buffer := buffer s @ bs\<rparr>, [])"
proof (induction bs arbitrary: s)
  case Nil
  then show ?case by (simp add: silent_def)
next
  case (Cons b bs)
  let ?s1 = "s\<lparr>silenceCount := silenceCount s + 1, buffer := buffer s @ [b]\<rparr>"
  have step: "ingest s False b = (?s1, None)"
    using Cons.prems by (simp add: ingest_eq)
  have "ingest_all ?s1 (silent bs) =
      (?s1\<lparr>silenceCount := silenceCount ?s1 + length bs, buffer := buffer ?s1 @ bs\<rparr>, [])"
    using Cons.prems by (intro Cons.IH) simp_all
  with step show ?case by (simp add: silent_def)
qed

lemma ingest_flush:
  "isRecording s \<Longrightarrow> silenceCount s + 1 = MIN_SILENCE_FRAMES \<Longrightarrow>
   ingest s False b =
     (audioState,
      if length (buffer s) + 1 > MIN_VOICE_FRAMES then Some (concat (buffer s @ [b])) else None)"
  by (simp add: ingest_eq resetAudioState_def audioState_def)

lemma ingest_all_flush:
  assumes "vs \<noteq> []" and "length ss = MIN_SILENCE_FRAMES"
  shows "ingest_all audioState (voiced vs @ silent ss) = (audioState, [concat (vs @ ss)])"
proof -
  from assms(2) obtain ss' z where ss: "ss = ss' @ [z]" and len: "length ss' = 9"
    by (cases ss rule: rev_cases) (auto simp: MIN_SILENCE_FRAMES_def)
  define a where "a = \<lparr>isRecording = True, buffer = vs, silenceCount = 0\<rparr>"
  define b where "b = \<lparr>isRecording = True, buffer = vs @ ss', silenceCount = 9\<rparr>"
  have a: "ingest_all audioState (voiced vs) = (a, [])"
    using ingest_all_voiced [OF assms(1), of audioState] by (simp add: a_def audioState_def)
  have b: "ingest_all a (silent ss') = (b, [])"
    using ingest_all_silent_short [of a ss']
    by (simp add: a_def b_def len MIN_SILENCE_FRAMES_def)
  have "ingest b False z = (audioState, Some (concat (buffer b @ [z])))"
    using ingest_flush [of b z]
    by (simp add: b_def len MIN_SILENCE_FRAMES_def MIN_VOICE_FRAMES_def)
  then have c: "ingest_all b (silent [z]) = (audioState, [concat (vs @ ss)])"
    by (simp add: silent_def b_def ss)
  have "voiced vs @ silent ss = voiced vs @ (silent ss' @ silent [z])"
    by (simp add: ss silent_def)
  then show ?thesis
    by (simp add: ingest_all_append a b c del: append_assoc)
qed

subsection \<open>The invariant of the segmenter\<close>




text \<open>
  At a flush the buffer holds the silence run and at least the frame that started the
  recording, so the test \<open>audioState.buffer.length > MIN_VOICE_FRAMES\<close> of line 349 holds
  whenever it is reached.
\<close>

lemma flush_guard_holds:
  assumes "vad_inv s" and "isRecording s" and "MIN_SILENCE_FRAMES \<le> silenceCount s + 1"
  shows "MIN_VOICE_FRAMES < length (buffer s @ [b])"
  using assms by (simp add: vad_inv_def MIN_SILENCE_FRAMES_def MIN_VOICE_FRAMES_def)

subsection \<open>The scenarios\<close>

text \<open>
  C4. From the initial state, 6 voiced frames followed by 10 silent frames hand exactly one
  buffer to speech-to-text: the bytes of all 16 frames in arrival order. The state is then
  the initial one again: not recording, empty buffer, silence count 0.
\<close>

theorem six_voiced_ten_silent:
  assumes "length vs = 6" and "length ss = 10"
  shows "ingest_all audioState (voiced vs @ silent ss) =
           (\<lparr>isRecording = False, buffer = [], silenceCount = 0\<rparr>, [concat (vs @ ss)])"
proof -
  from assms(1) have "vs \<noteq> []" by auto
  moreover from assms(2) have "length ss = MIN_SILENCE_FRAMES"
    by (simp add: MIN_SILENCE_FRAMES_def)
  ultimately have "ingest_all audioState (voiced vs @ silent ss) =
      (audioState, [concat (vs @ ss)])"
    by (rule ingest_all_flush)
  then show ?thesis by (simp add: audioState_def)
qed

theorem six_voiced_ten_silent_witness:
  "length voice6 = 6 \<and> length quiet10 = 10 \<and>
   ingest_all audioState (voiced voice6 @ silent quiet10) =
     (\<lparr>isRecording = False, buffer = [], silenceCount = 0\<rparr>,
      [[1, 4, 2, 5, 3, 6, 7, 1, 8, 2, 9, 3,
        0, 0, 1, 0, 0, 0, 1, 0, 0, 0, 1, 0, 0, 0, 1, 0, 0, 0, 1, 0]])"
proof -
  have l: "length voice6 = 6" "length quiet10 = 10"
    by (simp_all add: voice6_def quiet10_def)
  have "concat (voice6 @ quiet10) =
      [1, 4, 2, 5, 3, 6, 7, 1, 8, 2, 9, 3,
       0, 0, 1, 0, 0, 0, 1, 0, 0, 0, 1, 0, 0, 0, 1, 0, 0, 0, 1, 0]"
    by (simp add: voice6_def quiet10_def)
  with six_voiced_ten_silent [OF l] l show ?thesis by simp
qed

text \<open>
  C1. From the initial state, 3 voiced frames followed by 10 silent frames do hand a buffer
  to speech-to-text: at the 10th silent frame 13 frames are buffered, which is more than
  \<open>MIN_VOICE_FRAMES\<close>, so the 13 frames are emitted. The state is reset all the same.
\<close>

theorem three_voiced_ten_silent_emits:
  "ingest_all audioState (voiced voice3 @ silent quiet10) =
     (\<lparr>isRecording = False, buffer = [], silenceCount = 0\<rparr>,
      [[1, 4, 2, 5, 3, 6,
        0, 0, 1, 0, 0, 0, 1, 0, 0, 0, 1, 0, 0, 0, 1, 0, 0, 0, 1, 0]])"
proof -
  have "voice3 \<noteq> []" "length quiet10 = MIN_SILENCE_FRAMES"
    by (simp_all add: voice3_def quiet10_def MIN_SILENCE_FRAMES_def)
  then have "ingest_all audioState (voiced voice3 @ silent quiet10) =
      (audioState, [concat (voice3 @ quiet10)])"
    by (rule ingest_all_flush)
  then show ?thesis by (simp add: audioState_def voice3_def quiet10_def)
qed

text \<open>
  C5. A single voiced frame followed by 10 silent frames, fed from the initial state, is
  handed to speech-to-text: an utterance of one voiced frame, shorter than
  \<open>MIN_VOICE_FRAMES\<close>, is surfaced, with the 10 silent frames behind it.
\<close>

theorem one_voiced_ten_silent_emits:
  "ingest_all audioState (voiced voice1 @ silent quiet10) =
     (\<lparr>isRecording = False, buffer = [], silenceCount = 0\<rparr>,
      [[1, 4, 0, 0, 1, 0, 0, 0, 1, 0, 0, 0, 1, 0, 0, 0, 1, 0, 0, 0, 1, 0]])"
proof -
  have "voice1 \<noteq> []" "length quiet10 = MIN_SILENCE_FRAMES"
    by (simp_all add: voice1_def quiet10_def MIN_SILENCE_FRAMES_def)
  then have "ingest_all audioState (voiced voice1 @ silent quiet10) =
      (audioState, [concat (voice1 @ quiet10)])"
    by (rule ingest_all_flush)
  then show ?thesis by (simp add: audioState_def voice1_def quiet10_def)
qed

text \<open>
  C6. In a state that is not recording, a silent frame changes nothing and is not buffered.
  In particular 10 silent frames fed from the initial state leave the initial state: nothing
  buffered, nothing emitted, not recording.
\<close>

theorem silent_while_idle:
  "(\<not> isRecording s \<longrightarrow> ingest s False b = (s, None)) \<and>
   (length ss = 10 \<longrightarrow>
      ingest_all audioState (silent ss) =
        (\<lparr>isRecording = False, buffer = [], silenceCount = 0\<rparr>, []))"
proof -
  have "\<not> isRecording audioState" by (simp add: audioState_def)
  then have "ingest_all audioState (silent ss) = (audioState, [])"
    by (rule ingest_all_silent_idle)
  then show ?thesis by (simp add: ingest_eq audioState_def)
qed

theorem silent_while_idle_witness:
  "\<not> isRecording audioState \<and> ingest audioState False [0, 0] = (audioState, None) \<and>
   length quiet10 = 10 \<and>
   ingest_all audioState (silent quiet10) =
     (\<lparr>isRecording = False, buffer = [], silenceCount = 0\<rparr>, [])"
proof -
  have h: "\<not> isRecording audioState" "length quiet10 = 10"
    by (simp_all add: audioState_def quiet10_def)
  with silent_while_idle [of audioState "[0, 0]" quiet10] show ?thesis by simp
qed

subsection \<open>The invariant and the suspended handler\<close>







text \<open>
  Feeding frames one after the other is the handler that is resumed at once after each
  suspension.
\<close>

lemma ingest_all_await:
  "ingest_all s fs =
     (case untilAwait frameBody s fs of
        (s1, None) \<Rightarrow> (s1, [])
      | (s1, Some (u, rest)) \<Rightarrow>
          (case ingest_all (resetAudioState s1) rest of (s2, outs) \<Rightarrow> (s2, u # outs)))"
proof (induction fs arbitrary: s)
  case Nil
  then show ?case by simp
next
  case (Cons f fs)
  obtain v b where f: "f = (v, b)" by (cases f)
  obtain s1 out where body: "ingestUntilAwait s v b = (s1, out)"
    by (cases "ingestUntilAwait s v b")
  show ?case
  proof (cases out)
    case None
    with body Cons.IH [of s1] show ?thesis
      by (simp add: f ingest_def frameBody_def)
  next
    case (Some u)
    with body show ?thesis
      by (simp add: f ingest_def frameBody_def split: prod.splits)
  qed
qed




section \<open>Properties of the upstream client\<close>

subsection \<open>Sending needs an open socket\<close>

lemma ws_onOpen_connect: "ws (fst (onOpen (connect c cfg) w)) = Some w"
  by (simp add: onOpen_def connect_def Let_def)

lemma ws_disconnect: "ws (fst (disconnect c None)) = None"
  by (simp add: disconnect_def split: option.splits)

lemma ws_onClose: "ws c = Some w \<Longrightarrow> ws (fst (onClose c w)) = None"
  by (simp add: onClose_def disconnect_def)

text \<open>
  C8. On a client whose socket reference is empty, which is the case for a new client, while
  a connect has not yet seen its open event, after \<open>disconnect()\<close> and after the close event
  of the current socket, each of \<open>sendRealtimeInput\<close>, \<open>sendToolResponse\<close> and \<open>send\<close> fails
  with the not-connected error and has no effect. On a client holding socket \<open>w\<close>, which is
  the case after the open event of a connect, each sends exactly its envelope on \<open>w\<close>.
\<close>

theorem senders_need_open_socket:
  "(ws c = None \<longrightarrow>
      sendRealtimeInput c chunks = Inl NotConnected \<and>
      sendToolResponse c tr = Inl NotConnected \<and>
      send c ps tc = Inl NotConnected) \<and>
   (ws c = Some w \<longrightarrow>
      sendRealtimeInput c chunks =
        Inr [Transmit w (RealtimeInputMessage chunks), Emit (Ev_log ''client.realtimeInput'')] \<and>
      sendToolResponse c tr =
        Inr [Transmit w (ToolResponseMessage tr), Emit (Ev_log ''client.toolResponse'')] \<and>
      send c ps tc =
        Inr [Transmit w
               (ClientContentMessage
                  [\<lparr>role = ''user'', parts = (case ps of Inl p \<Rightarrow> [p] | Inr l \<Rightarrow> l)\<rparr>]
                  (tc \<noteq> Some False)),
             Emit (Ev_log ''client.send'')]) \<and>
   ws newClient = None \<and>
   ws (connect newClient cfg) = None \<and>
   ws (fst (disconnect c None)) = None \<and>
   (ws c = Some w \<longrightarrow> ws (fst (onClose c w)) = None) \<and>
   ws (fst (onOpen (connect c cfg) w)) = Some w"
proof -
  have closed: "ws c = None \<Longrightarrow> sendDirect c r = Inl NotConnected" for r
    by (simp add: sendDirect_def)
  have opened: "ws c = Some w \<Longrightarrow> sendDirect c r = Inr [Transmit w r]" for r
    by (simp add: sendDirect_def)
  have tc: "(case tc of None \<Rightarrow> True | Some t \<Rightarrow> t) = (tc \<noteq> Some False)"
    by (cases tc) auto
  have fresh: "ws newClient = None" "ws (connect newClient cfg) = None"
    by (simp_all add: newClient_def connect_def)
  show ?thesis
    by (simp add: sendRealtimeInput_def sendToolResponse_def send_def Let_def closed opened tc
        ws_onOpen_connect ws_disconnect ws_onClose fresh)
qed

theorem senders_need_open_socket_witness:
  "ws newClient = None \<and>
   sendRealtimeInput newClient [\<lparr>mimeType = ''audio/pcm'', data = ''AAA=''\<rparr>] = Inl NotConnected \<and>
   sendToolResponse newClient JNull = Inl NotConnected \<and>
   send newClient (Inr []) None = Inl NotConnected \<and>
   ws (fst (onOpen (connect newClient \<lparr>model = ''m'', systemInstruction = None,
        generationConfig = None, tools = None\<rparr>) 7)) = Some 7 \<and>
   sendRealtimeInput (fst (onOpen (connect newClient \<lparr>model = ''m'', systemInstruction = None,
        generationConfig = None, tools = None\<rparr>) 7))
       [\<lparr>mimeType = ''audio/pcm'', data = ''AAA=''\<rparr>] =
     Inr [Transmit 7 (RealtimeInputMessage [\<lparr>mimeType = ''audio/pcm'', data = ''AAA=''\<rparr>]),
          Emit (Ev_log ''client.realtimeInput'')] \<and>
   ws (fst (onClose (fst (onOpen (connect newClient \<lparr>model = ''m'', systemInstruction = None,
        generationConfig = None, tools = None\<rparr>) 7)) 7)) = None"
proof -
  let ?cfg = "\<lparr>model = ''m'', systemInstruction = None, generationConfig = None, tools = None\<rparr>"
  let ?c = "fst (onOpen (connect newClient ?cfg) 7)"
  let ?chunks = "[\<lparr>mimeType = ''audio/pcm'', data = ''AAA=''\<rparr>]"
  have a: "ws newClient = None" by (simp add: newClient_def)
  have b: "ws ?c = Some 7" by (simp add: onOpen_def connect_def Let_def)
  from senders_need_open_socket [of newClient ?chunks JNull "Inr []" None 7 ?cfg]
    senders_need_open_socket [of ?c ?chunks JNull "Inr []" None 7 ?cfg] a b
  show ?thesis by simp
qed

subsection \<open>Dispatch of an incoming message\<close>

lemma difference_filter: "difference ps (filter P ps) = filter (\<lambda>p. \<not> P p) ps"
  by (auto simp: difference_def intro: filter_cong)

lemma emitAudio_decodable:
  assumes "\<forall>p\<in>set ps. isAudioPart p \<and> payload p \<noteq> [] \<longrightarrow> dec (payload p) = Some (f (payload p))"
  shows "emitAudio dec (map (\<lambda>p. map_option data (inlineData p)) (filter isAudioPart ps)) =
           (concat (map (\<lambda>p. [Ev_audio (f (payload p)), Ev_log ''server.audio''])
                      (filter (\<lambda>p. isAudioPart p \<and> payload p \<noteq> []) ps)), None)"
  using assms
proof (induction ps)
  case Nil
  then show ?case by simp
next
  case (Cons p ps)
  then have IH: "emitAudio dec (map (\<lambda>p. map_option data (inlineData p)) (filter isAudioPart ps)) =
           (concat (map (\<lambda>p. [Ev_audio (f (payload p)), Ev_log ''server.audio''])
                      (filter (\<lambda>p. isAudioPart p \<and> payload p \<noteq> []) ps)), None)"
    by simp
  show ?case
  proof (cases "isAudioPart p")
    case False
    with IH show ?thesis by simp
  next
    case True
    then obtain b where b: "inlineData p = Some b"
      by (auto simp: isAudioPart_def split: option.splits)
    then have pl: "payload p = data b" by (simp add: payload_def)
    show ?thesis
    proof (cases "data b = []")
      case True
      with IH \<open>isAudioPart p\<close> b pl show ?thesis by simp
    next
      case False
      with Cons.prems \<open>isAudioPart p\<close> pl have "dec (data b) = Some (f (data b))" by simp
      with IH \<open>isAudioPart p\<close> b pl False show ?thesis by simp
    qed
  qed
qed

text \<open>
  C2. A server content message that is neither a tool call nor a tool call cancellation and
  carries both \<open>turnComplete: true\<close> and a \<open>modelTurn\<close> makes \<open>receive\<close> emit the
  turn-complete event and then go on to the model turn of the same message: where the audio
  payloads decode, it emits one audio event for each audio part with a non-empty payload, in
  the order of the parts, and then one content event with the remaining parts if any remain.
  The relay's own handler likewise logs the turn completion and then sends the audio parts to
  the client. When the message carries a truthy \<open>interrupted\<close>, \<open>receive\<close> emits the
  interrupted event and returns, and the relay's handler returns after its log line: no
  turn-complete, audio or content comes out of that message.
\<close>

theorem receive_dispatch:
  assumes "\<not> isToolCallMessage r" and "\<not> isToolCallCancellationMessage r"
    and "serverContent r = Some sc"
  shows
   "(\<not> isInterrupted sc \<and> turnComplete sc = Some True \<and> modelTurn sc = Some ps \<longrightarrow>
       Ev_turncomplete \<in> set (fst (receive dec r)) \<and>
       ((\<forall>p\<in>set ps. isAudioPart p \<and> payload p \<noteq> [] \<longrightarrow> dec (payload p) = Some (f (payload p))) \<longrightarrow>
          receive dec r =
            ((if setupComplete r = None then [] else [Ev_log ''server.send'', Ev_setupcomplete]) @
             [Ev_log ''server.send'', Ev_turncomplete] @
             concat (map (\<lambda>p. [Ev_audio (f (payload p)), Ev_log ''server.audio''])
                       (filter (\<lambda>p. isAudioPart p \<and> payload p \<noteq> []) ps)) @
             (if \<forall>p\<in>set ps. isAudioPart p then []
              else [Ev_content (filter (\<lambda>p. \<not> isAudioPart p) ps), Ev_log ''server.content'']),
             None)) \<and>
       onUpstreamMessage (Some w) r =
         ([Console ''turnComplete'', Console ''modelTurn'', ToClient w (filter isAudioPart ps)],
          None)) \<and>
    (isInterrupted sc \<longrightarrow>
       receive dec r =
         ((if setupComplete r = None then [] else [Ev_log ''server.send'', Ev_setupcomplete]) @
          [Ev_log ''receive.serverContent'', Ev_interrupted], None) \<and>
       onUpstreamMessage srv r = ([Console ''interrupted''], None))"
proof (intro conjI impI)
  assume a: "\<not> isInterrupted sc \<and> turnComplete sc = Some True \<and> modelTurn sc = Some ps"
  then have tc: "isTurnComplete sc" and mt: "isModelTurn sc"
    by (simp_all add: isTurnComplete_def isModelTurn_def)
  show "Ev_turncomplete \<in> set (fst (receive dec r))"
    using assms a tc
    by (auto simp: receive_def Let_def split: prod.splits option.splits)
  show "onUpstreamMessage (Some w) r =
      ([Console ''turnComplete'', Console ''modelTurn'', ToClient w (filter isAudioPart ps)], None)"
    using assms a tc mt by (simp add: onUpstreamMessage_def isServerContentMessage_def)
  assume d: "\<forall>p\<in>set ps. isAudioPart p \<and> payload p \<noteq> [] \<longrightarrow> dec (payload p) = Some (f (payload p))"
  have nil: "(filter (\<lambda>p. \<not> isAudioPart p) ps = []) = (\<forall>p\<in>set ps. isAudioPart p)"
    by (simp add: filter_empty_conv)
  show "receive dec r =
            ((if setupComplete r = None then [] else [Ev_log ''server.send'', Ev_setupcomplete]) @
             [Ev_log ''server.send'', Ev_turncomplete] @
             concat (map (\<lambda>p. [Ev_audio (f (payload p)), Ev_log ''server.audio''])
                       (filter (\<lambda>p. isAudioPart p \<and> payload p \<noteq> []) ps)) @
             (if \<forall>p\<in>set ps. isAudioPart p then []
              else [Ev_content (filter (\<lambda>p. \<not> isAudioPart p) ps), Ev_log ''server.content'']),
             None)"
    using assms a tc
    by (simp add: receive_def Let_def difference_filter emitAudio_decodable [OF d] nil
        isSetupCompleteMessage_def)
next
  assume i: "isInterrupted sc"
  show "receive dec r =
         ((if setupComplete r = None then [] else [Ev_log ''server.send'', Ev_setupcomplete]) @
          [Ev_log ''receive.serverContent'', Ev_interrupted], None)"
    using assms i by (simp add: receive_def Let_def isSetupCompleteMessage_def)
  show "onUpstreamMessage srv r = ([Console ''interrupted''], None)"
    using assms i by (simp add: onUpstreamMessage_def isServerContentMessage_def)
qed

theorem receive_dispatch_witness:
  "\<not> isToolCallMessage turnMessage \<and> \<not> isToolCallCancellationMessage turnMessage \<and>
   receive (\<lambda>s. Some [1, 2]) turnMessage =
     ([Ev_log ''server.send'', Ev_turncomplete, Ev_audio [1, 2], Ev_log ''server.audio'',
       Ev_content [textPart1], Ev_log ''server.content''], None) \<and>
   onUpstreamMessage (Some 3) turnMessage =
     ([Console ''turnComplete'', Console ''modelTurn'', ToClient 3 [audioPart1]], None) \<and>
   \<not> isToolCallMessage interruptedMessage \<and>
   \<not> isToolCallCancellationMessage interruptedMessage \<and>
   receive (\<lambda>s. Some [1, 2]) interruptedMessage =
     ([Ev_log ''receive.serverContent'', Ev_interrupted], None) \<and>
   onUpstreamMessage (Some 3) interruptedMessage = ([Console ''interrupted''], None)"
proof -
  let ?sc = "\<lparr>interrupted = None, turnComplete = Some True,
               modelTurn = Some [audioPart1, textPart1]\<rparr>"
  let ?si = "\<lparr>interrupted = Some True, turnComplete = Some True,
               modelTurn = Some [audioPart1, textPart1]\<rparr>"
  have t: "\<not> isToolCallMessage turnMessage" "\<not> isToolCallCancellationMessage turnMessage"
    "serverContent turnMessage = Some ?sc"
    by (simp_all add: turnMessage_def isToolCallMessage_def isToolCallCancellationMessage_def)
  have i: "\<not> isToolCallMessage interruptedMessage"
    "\<not> isToolCallCancellationMessage interruptedMessage"
    "serverContent interruptedMessage = Some ?si"
    by (simp_all add: interruptedMessage_def isToolCallMessage_def
        isToolCallCancellationMessage_def)
  have parts: "isAudioPart audioPart1" "\<not> isAudioPart textPart1" "payload audioPart1 = ''AQI=''"
    by (simp_all add: isAudioPart_def audioPart1_def textPart1_def payload_def)
  have sc: "\<not> isInterrupted ?sc" "isInterrupted ?si"
    by (simp_all add: isInterrupted_def)
  from receive_dispatch [OF t, of "[audioPart1, textPart1]" "\<lambda>s. Some [1, 2]" "\<lambda>s. [1, 2]" 3 None]
    receive_dispatch [OF i, of "[audioPart1, textPart1]" "\<lambda>s. Some [1, 2]" "\<lambda>s. [1, 2]" 3 "Some 3"]
    t i parts sc
  show ?thesis
    by (simp add: turnMessage_def interruptedMessage_def)
qed

section \<open>Properties of the relay\<close>

subsection \<open>A failing chunk is skipped and nothing else\<close>

lemma tryChunk_skip_state:
  "tryChunk bf dv s c = Inl why \<Longrightarrow> tryChunk bf dv s' c = Inl why"
  by (auto simp: tryChunk_def split: sum.splits prod.splits)

lemma tryChunk_skip_body:
  "tryChunk bf dv s c = Inl why \<Longrightarrow> chunkBody bf dv s' c = (s', None)"
  by (auto simp: tryChunk_def chunkBody_def split: sum.splits prod.splits)

lemma chunkLoop_append:
  "chunkLoop bf dv s (pre @ post) =
     (case chunkLoop bf dv s pre of (s1, o1) \<Rightarrow>
        (case chunkLoop bf dv s1 post of (s2, o2) \<Rightarrow> (s2, o1 @ o2)))"
  by (induction pre arbitrary: s) (auto split: prod.splits option.splits sum.splits)

lemma chunkLoop_skip:
  assumes "tryChunk bf dv s' c = Inl why"
  shows "chunkLoop bf dv s (pre @ c # post) = chunkLoop bf dv s (pre @ post)"
proof -
  obtain s1 o1 where pre: "chunkLoop bf dv s pre = (s1, o1)"
    by (cases "chunkLoop bf dv s pre")
  from assms have "tryChunk bf dv s1 c = Inl why"
    by (rule tryChunk_skip_state)
  then have "chunkLoop bf dv s1 (c # post) = chunkLoop bf dv s1 post"
    by simp
  then show ?thesis
    by (simp add: chunkLoop_append pre)
qed

text \<open>
  The loop of one handler is the handler that is resumed at once after each suspension.
\<close>

lemma chunkLoop_await:
  "chunkLoop bf dv s cs =
     (case untilAwait (chunkBody bf dv) s cs of
        (s1, None) \<Rightarrow> (s1, [])
      | (s1, Some (u, rest)) \<Rightarrow>
          (case chunkLoop bf dv (resetAudioState s1) rest of (s2, outs) \<Rightarrow> (s2, u # outs)))"
proof (induction cs arbitrary: s)
  case Nil
  then show ?case by simp
next
  case (Cons c cs)
  show ?case
  proof (cases "readChunk bf dv c")
    case (Inl why)
    with Cons.IH [of s] show ?thesis
      by (simp add: tryChunk_def chunkBody_def)
  next
    case (Inr f)
    obtain v b where f: "f = (v, b)" by (cases f)
    obtain s1 out where body: "ingestUntilAwait s v b = (s1, out)"
      by (cases "ingestUntilAwait s v b")
    show ?thesis
    proof (cases out)
      case None
      with Inr f body Cons.IH [of s1] show ?thesis
        by (simp add: tryChunk_def chunkBody_def ingest_def)
    next
      case (Some u)
      with Inr f body show ?thesis
        by (simp add: tryChunk_def chunkBody_def ingest_def split: prod.splits)
    qed
  qed
qed

text \<open>
  C7, as stated, fails: a batch that arrives while the upstream socket is still connecting
  is not forwarded. The send throws, the handler ends there, and the chunks are not looked
  at.
\<close>

theorem batch_while_connecting:
  "onClientMessage decodeStr loud CONNECTING listener0 [pcmChunk] = Inl UpstreamConnecting"
  by (simp add: onClientMessage_def clientWsSend_def)

text \<open>
  C7, amended. For every batch of media chunks that arrives while the upstream socket is
  open, the handler first sends the whole batch, as received, to the upstream socket,
  whatever the segmenter state and whatever handlers are suspended; its other effects are
  the speech-to-text calls of the chunk loop. A chunk of invalid shape, a chunk whose
  \<open>mimeType\<close> does not contain \<open>audio/pcm\<close>, and a chunk on which reading the type, decoding
  or classifying throws are each skipped: such a chunk leaves the state as it is, the
  handler goes on with the chunk after it, and the loop treats the batch exactly as it
  treats the batch without that chunk, wherever in the batch the chunk stands. No such
  chunk ends the handler with an exception.
\<close>

theorem chunk_failure_is_local:
  "(rs = OPEN \<longrightarrow>
      onClientMessage bf dv rs g chunks =
        Inr (fst (listenerStep (chunkBody bf dv) g (Message chunks)),
             ToUpstream clientWs chunks #
               map SpeechToText (snd (listenerStep (chunkBody bf dv) g (Message chunks))))) \<and>
   (\<not> validChunk c \<longrightarrow> tryChunk bf dv s c = Inl InvalidChunkFormat) \<and>
   (validChunk c \<and> includesAudioPcm (field c ''mimeType'') = Some False \<longrightarrow>
      tryChunk bf dv s c = Inl UnsupportedAudioFormat) \<and>
   (validChunk c \<and> includesAudioPcm (field c ''mimeType'') = None \<longrightarrow>
      tryChunk bf dv s c = Inl Exception) \<and>
   (validChunk c \<and> includesAudioPcm (field c ''mimeType'') = Some True \<and>
    field c ''data'' = Some d \<and> bf d = None \<longrightarrow>
      tryChunk bf dv s c = Inl Exception) \<and>
   (validChunk c \<and> includesAudioPcm (field c ''mimeType'') = Some True \<and>
    field c ''data'' = Some d \<and> bf d = Some buf \<and> dv buf = None \<longrightarrow>
      tryChunk bf dv s c = Inl Exception) \<and>
   (tryChunk bf dv s c = Inl why \<longrightarrow>
      chunkBody bf dv s0 c = (s0, None) \<and>
      untilAwait (chunkBody bf dv) s0 (c # post) = untilAwait (chunkBody bf dv) s0 post \<and>
      chunkLoop bf dv s0 (pre @ c # post) = chunkLoop bf dv s0 (pre @ post))"
proof -
  have skip: "tryChunk bf dv s c = Inl why \<Longrightarrow>
      chunkLoop bf dv s0 (pre @ c # post) = chunkLoop bf dv s0 (pre @ post)"
    by (rule chunkLoop_skip)
  have body: "tryChunk bf dv s c = Inl why \<Longrightarrow> chunkBody bf dv s0 c = (s0, None)"
    by (rule tryChunk_skip_body)
  have "rs = OPEN \<Longrightarrow>
      onClientMessage bf dv rs g chunks =
        Inr (fst (listenerStep (chunkBody bf dv) g (Message chunks)),
             ToUpstream clientWs chunks #
               map SpeechToText (snd (listenerStep (chunkBody bf dv) g (Message chunks))))"
    by (simp add: onClientMessage_def clientWsSend_def split: prod.splits)
  moreover have "\<not> validChunk c \<Longrightarrow> tryChunk bf dv s c = Inl InvalidChunkFormat"
    by (simp add: tryChunk_def readChunk_def)
  moreover have "validChunk c \<and> includesAudioPcm (field c ''mimeType'') = Some False \<Longrightarrow>
      tryChunk bf dv s c = Inl UnsupportedAudioFormat"
    by (simp add: tryChunk_def readChunk_def)
  moreover have "validChunk c \<and> includesAudioPcm (field c ''mimeType'') = None \<Longrightarrow>
      tryChunk bf dv s c = Inl Exception"
    by (simp add: tryChunk_def readChunk_def)
  moreover have "validChunk c \<and> includesAudioPcm (field c ''mimeType'') = Some True \<and>
      field c ''data'' = Some d \<and> bf d = None \<Longrightarrow> tryChunk bf dv s c = Inl Exception"
    by (simp add: tryChunk_def readChunk_def)
  moreover have "validChunk c \<and> includesAudioPcm (field c ''mimeType'') = Some True \<and>
      field c ''data'' = Some d \<and> bf d = Some buf \<and> dv buf = None \<Longrightarrow>
      tryChunk bf dv s c = Inl Exception"
    by (simp add: tryChunk_def readChunk_def)
  moreover have "tryChunk bf dv s c = Inl why \<Longrightarrow>
      untilAwait (chunkBody bf dv) s0 (c # post) = untilAwait (chunkBody bf dv) s0 post"
    by (simp add: body)
  ultimately show ?thesis using skip body by blast
qed

theorem chunk_failure_is_local_witness:
  "onClientMessage decodeStr loud OPEN listener0 [pcmChunk, numberChunk, pcmChunk] =
     Inr (\<lparr>vad = \<lparr>isRecording = True, buffer = [[1, 2], [1, 2]], silenceCount = 0\<rparr>,
            awaiting = []\<rparr>,
          [ToUpstream clientWs [pcmChunk, numberChunk, pcmChunk]]) \<and>
   \<not> validChunk JNull \<and> tryChunk decodeStr loud audioState JNull = Inl InvalidChunkFormat \<and>
   validChunk jpegChunk \<and> tryChunk decodeStr loud audioState jpegChunk = Inl UnsupportedAudioFormat \<and>
   validChunk numberChunk \<and> tryChunk decodeStr loud audioState numberChunk = Inl Exception \<and>
   chunkLoop decodeStr loud audioState [pcmChunk, numberChunk, pcmChunk] =
     (\<lparr>isRecording = True, buffer = [[1, 2], [1, 2]], silenceCount = 0\<rparr>, [])"
proof -
  have v: "\<not> validChunk JNull" "validChunk jpegChunk" "validChunk numberChunk"
    by (simp_all add: validChunk_def jpegChunk_def numberChunk_def)
  have j: "includesAudioPcm (field jpegChunk ''mimeType'') = Some False"
    by (simp add: jpegChunk_def sublist_Cons_right)
  have n: "includesAudioPcm (field numberChunk ''mimeType'') = Some True"
    "field numberChunk ''data'' = Some (JNum 5)" "decodeStr (JNum 5) = None"
    by (simp_all add: numberChunk_def decodeStr_def sublist_Cons_right)
  have ex: "tryChunk decodeStr loud audioState numberChunk = Inl Exception"
    using chunk_failure_is_local [of OPEN decodeStr loud listener0 "[]" numberChunk audioState
        "JNum 5"] v n
    by simp
  have p: "readChunk decodeStr loud pcmChunk = Inr (True, [1, 2])"
    by (simp add: readChunk_def validChunk_def pcmChunk_def decodeStr_def loud_def
        sublist_Cons_right)
  have e: "chunkBody decodeStr loud s numberChunk = (s, None)" for s
    using ex by (rule tryChunk_skip_body)
  have step: "listenerStep (chunkBody decodeStr loud) listener0
      (Message [pcmChunk, numberChunk, pcmChunk]) =
      (\<lparr>vad = \<lparr>isRecording = True, buffer = [[1, 2], [1, 2]], silenceCount = 0\<rparr>,
         awaiting = []\<rparr>, [])"
    by (simp add: listenerStep_def proceed_def chunkBody_def p e [unfolded chunkBody_def]
        ingestUntilAwait_def listener0_def audioState_def)
  have loop: "chunkLoop decodeStr loud audioState ([pcmChunk] @ [pcmChunk]) =
     (\<lparr>isRecording = True, buffer = [[1, 2], [1, 2]], silenceCount = 0\<rparr>, [])"
    by (simp add: tryChunk_def p ingest_eq audioState_def)
  from chunk_failure_is_local [of OPEN decodeStr loud listener0
      "[pcmChunk, numberChunk, pcmChunk]" JNull audioState]
    chunk_failure_is_local [of OPEN decodeStr loud listener0 "[]" jpegChunk audioState]
    chunk_failure_is_local [of OPEN decodeStr loud listener0 "[]" numberChunk audioState "JNum 5"
      _ Exception audioState "[pcmChunk]" "[pcmChunk]"]
    v j ex step loop
  show ?thesis by simp
qed

subsection \<open>One upstream connection for all clients\<close>

lemma relayRun_state:
  "handlers (fst (relayRun bf dv st evs)) = handlers st @ upgraded evs"
proof (induction evs arbitrary: st)
  case Nil
  then show ?case by simp
next
  case (Cons ev evs)
  obtain st1 es where step: "relayStep bf dv st ev = (st1, es)"
    by (cases "relayStep bf dv st ev")
  obtain st2 tr where rest: "relayRun bf dv st1 evs = (st2, tr)"
    by (cases "relayRun bf dv st1 evs")
  from Cons.IH [of st1] rest have IH: "handlers st2 = handlers st1 @ upgraded evs"
    by simp
  have run: "fst (relayRun bf dv st (ev # evs)) = st2"
    by (simp add: step rest)
  have "handlers st1 = handlers st @ upgraded [ev]"
    using step
    by (cases ev)
       (auto simp: relayStep_def split: if_splits prod.splits sum.splits option.splits)
  moreover have "upgraded (ev # evs) = upgraded [ev] @ upgraded evs"
    by (cases ev) simp_all
  ultimately show ?case using IH run by simp
qed

lemma upstreamsIn_SpeechToText: "upstreamsIn (map SpeechToText us) = []"
  by (induction us) simp_all

lemma one_upstream_each_any: "one_upstream_each ps"
proof -
  have "u = u'" for u u' :: Upstream
    by (cases u; cases u') simp
  then show ?thesis by (auto simp: one_upstream_each_def)
qed

text \<open>
  C3, as stated, fails: two clients that have both been upgraded forward their batches on
  the same upstream connection.
\<close>

theorem clients_share_upstream:
  "\<not> pairing_one_to_one
       (forwards (snd (relayRun decodeStr loud relayInit
          [UpstreamOpened, Upgrade 1, Upgrade 2,
           ClientMessage 1 [pcmChunk], ClientMessage 2 [pcmChunk]])))"
proof -
  have p: "chunkBody decodeStr loud s pcmChunk =
      (s\<lparr>silenceCount := 0, buffer := buffer s @ [[1, 2]], isRecording := True\<rparr>, None)" for s
    by (simp add: chunkBody_def readChunk_def validChunk_def pcmChunk_def decodeStr_def loud_def
        sublist_Cons_right ingestUntilAwait_def)
  have "forwards (snd (relayRun decodeStr loud relayInit
          [UpstreamOpened, Upgrade 1, Upgrade 2,
           ClientMessage 1 [pcmChunk], ClientMessage 2 [pcmChunk]])) =
        [(1, clientWs), (2, clientWs)]"
    by (simp add: relayStep_def relayInit_def onClientMessage_def clientWsSend_def
        listenerStep_def proceed_def p listener0_def)
  then show ?thesis
    by (simp add: pairing_one_to_one_def no_shared_upstream_def)
qed

text \<open>
  C3, amended. At any time there is one upstream connection for the whole process. The
  message handlers are registered on the client sockets upgraded so far, and while the
  upstream connection is open every one of them forwards each of its batches on that
  connection, exactly once. So each client connection has exactly one upstream connection,
  and all client connections share it.
\<close>

theorem relay_single_upstream:
  "one_upstream_each (forwards (snd (relayRun bf dv relayInit evs))) \<and>
   handlers (fst (relayRun bf dv relayInit evs)) = upgraded evs \<and>
   (w \<in> set (handlers st) \<and> upstream st = OPEN \<longrightarrow>
      upstreamsIn (snd (relayStep bf dv st (ClientMessage w chunks))) = [clientWs] \<and>
      ToUpstream clientWs chunks \<in> set (snd (relayStep bf dv st (ClientMessage w chunks))))"
proof -
  have "handlers relayInit = []"
    by (simp add: relayInit_def)
  with relayRun_state [of bf dv relayInit evs]
  have run: "handlers (fst (relayRun bf dv relayInit evs)) = upgraded evs"
    by simp
  have "w \<in> set (handlers st) \<and> upstream st = OPEN \<Longrightarrow>
      upstreamsIn (snd (relayStep bf dv st (ClientMessage w chunks))) = [clientWs] \<and>
      ToUpstream clientWs chunks \<in> set (snd (relayStep bf dv st (ClientMessage w chunks)))"
    by (simp add: relayStep_def onClientMessage_def clientWsSend_def upstreamsIn_SpeechToText
        split: prod.splits)
  with run one_upstream_each_any show ?thesis by blast
qed

theorem relay_single_upstream_witness:
  "1 \<in> set (handlers (fst (relayRun decodeStr loud relayInit [UpstreamOpened, Upgrade 1, Upgrade 2]))) \<and>
   upstream (fst (relayRun decodeStr loud relayInit [UpstreamOpened, Upgrade 1, Upgrade 2])) = OPEN \<and>
   upstreamsIn (snd (relayStep decodeStr loud
       (fst (relayRun decodeStr loud relayInit [UpstreamOpened, Upgrade 1, Upgrade 2]))
       (ClientMessage 1 [pcmChunk]))) = [clientWs] \<and>
   ToUpstream clientWs [pcmChunk] \<in>
     set (snd (relayStep decodeStr loud
       (fst (relayRun decodeStr loud relayInit [UpstreamOpened, Upgrade 1, Upgrade 2]))
       (ClientMessage 1 [pcmChunk])))"
proof -
  let ?st = "fst (relayRun decodeStr loud relayInit [UpstreamOpened, Upgrade 1, Upgrade 2])"
  have st: "?st = \<lparr>serverWs = Some 2, upstream = OPEN, handlers = [1, 2], listener = listener0\<rparr>"
    by (simp add: relayStep_def relayInit_def)
  from relay_single_upstream [of decodeStr loud "[UpstreamOpened, Upgrade 1, Upgrade 2]" 1 ?st
      "[pcmChunk]"] st
  show ?thesis by simp
qed

section \<open>Properties of the sample conversion\<close>

lemma wrap_int16:
  "- 32768 \<le> n \<Longrightarrow> n < 32768 \<Longrightarrow>
   (if n mod 65536 < 32768 then n mod 65536 else n mod 65536 - 65536) = (n::int)"
proof (cases "0 \<le> n")
  case True
  assume "n < 32768"
  with True have "n mod 65536 = n" by simp
  with \<open>n < 32768\<close> show ?thesis by simp
next
  case False
  assume "- 32768 \<le> n"
  with False have "(n + 65536) mod 65536 = n + 65536"
    by (intro mod_pos_pos_trivial) simp_all
  then have "n mod 65536 = n + 65536" by simp
  with \<open>- 32768 \<le> n\<close> show ?thesis by simp
qed

lemma toInt16_small:
  assumes "- 32767 \<le> v" and "v \<le> 32767"
  shows "toInt16 v = (if v < 0 then \<lceil>v\<rceil> else \<lfloor>v\<rfloor>)"
proof -
  let ?n = "if v < 0 then \<lceil>v\<rceil> else \<lfloor>v\<rfloor>"
  have "- 32767 \<le> \<lceil>v\<rceil>" using assms(1) by (simp add: le_ceiling_iff)
  moreover have "v < 0 \<Longrightarrow> \<lceil>v\<rceil> \<le> 0" by (simp add: ceiling_le_iff)
  moreover have "\<lfloor>v\<rfloor> \<le> 32767" using assms(2) by (simp add: floor_le_iff)
  moreover have "\<not> v < 0 \<Longrightarrow> 0 \<le> \<lfloor>v\<rfloor>" by simp
  ultimately have "- 32768 \<le> ?n" "?n < 32768" by auto
  then have "(if ?n mod 65536 < 32768 then ?n mod 65536 else ?n mod 65536 - 65536) = ?n"
    by (rule wrap_int16)
  then show ?thesis by (simp add: toInt16_def Let_def)
qed

lemma roundtrip_sample:
  assumes "- 1 \<le> x" and "x \<le> 1"
  shows "\<bar>real_of_int (toInt16 (x * 32767)) / 32768 - x\<bar> < 2 / 32768"
proof -
  define v where "v = x * 32767"
  define y where "y = real_of_int (toInt16 v)"
  have r: "- 32767 \<le> v" "v \<le> 32767" using assms by (simp_all add: v_def)
  have near: "\<bar>y - 32768 * x\<bar> < 2"
  proof (cases "v < 0")
    case True
    then have "y = real_of_int \<lceil>v\<rceil>" using toInt16_small [OF r] by (simp add: y_def)
    moreover have "v \<le> real_of_int \<lceil>v\<rceil>" "real_of_int \<lceil>v\<rceil> < v + 1"
      by linarith+
    ultimately show ?thesis using assms v_def unfolding abs_less_iff by linarith
  next
    case False
    then have "y = real_of_int \<lfloor>v\<rfloor>" using toInt16_small [OF r] by (simp add: y_def)
    moreover have "real_of_int \<lfloor>v\<rfloor> \<le> v" "v < real_of_int \<lfloor>v\<rfloor> + 1"
      by linarith+
    ultimately show ?thesis using assms v_def unfolding abs_less_iff by linarith
  qed
  have "y / 32768 - x = (y - 32768 * x) / 32768" by (simp add: field_simps)
  then have "\<bar>y / 32768 - x\<bar> = \<bar>y - 32768 * x\<bar> / 32768" by (simp only: abs_divide abs_numeral)
  also from near have "\<dots> < 2 / 32768" by (rule divide_strict_right_mono) simp
  finally show ?thesis by (simp only: y_def v_def)
qed

lemma onaudioprocess_sample: "onaudioprocess [131071 / 131072] = [32766]"
  by (simp add: onaudioprocess_def toInt16_def Let_def)

text \<open>
  C9, as stated, fails: the float32 sample \<open>1 - 2^-17\<close> becomes 32766 and comes back as
  \<open>1 - 2^-14\<close>, which is \<open>7/131072\<close> away, more than one step \<open>1/32768\<close>.
\<close>

theorem roundtrip_one_step_fails:
  "- 1 \<le> (131071 / 131072 :: real) \<and> (131071 / 131072 :: real) \<le> 1 \<and>
   convertPCM16LEToFloat32 (onaudioprocess [131071 / 131072]) = [32766 / 32768] \<and>
   \<not> \<bar>32766 / 32768 - 131071 / 131072 :: real\<bar> \<le> 1 / 32768"
  by (simp add: onaudioprocess_sample convertPCM16LEToFloat32_def)

text \<open>
  C9, amended. For samples in \<open>[-1, 1]\<close>, converting to PCM16 (times 32767, truncated) and
  back (divided by 32768) recovers each sample to within less than two quantization steps.
\<close>

theorem roundtrip_two_steps:
  assumes "\<forall>x\<in>set xs. - 1 \<le> x \<and> x \<le> 1"
  shows "list_all2 (\<lambda>y x. \<bar>y - x\<bar> < 2 / 32768) (convertPCM16LEToFloat32 (onaudioprocess xs)) xs"
proof -
  from assms have "\<forall>x\<in>set xs. \<bar>real_of_int (toInt16 (x * 32767)) / 32768 - x\<bar> < 2 / 32768"
    using roundtrip_sample by blast
  then show ?thesis
    unfolding convertPCM16LEToFloat32_def onaudioprocess_def
    by (simp only: list_all2_map1 list_all2_same)
qed

theorem roundtrip_two_steps_witness:
  "- 1 \<le> (131071 / 131072 :: real) \<and> (131071 / 131072 :: real) \<le> 1 \<and>
   - 1 \<le> (- 1 :: real) \<and> (- 1 :: real) \<le> 1 \<and>
   list_all2 (\<lambda>y x. \<bar>y - x\<bar> < 2 / 32768)
     (convertPCM16LEToFloat32 (onaudioprocess [131071 / 131072, - 1])) [131071 / 131072, - 1]"
proof -
  have h: "\<forall>x\<in>set [131071 / 131072, - 1 :: real]. - 1 \<le> x \<and> x \<le> 1" by simp
  from roundtrip_two_steps [OF h] show ?thesis by simp
qed

end
